theory Spec2Isabelle
  imports Complex_Main
begin

section \<open>Text\<close>

text \<open>
  A Python \<open>str\<close> is modelled as a \<^typ>\<open>string\<close>, each \<^typ>\<open>char\<close> read as the
  code point of the same number (0 to 255). On that range the whitespace of
  \<open>str.strip\<close> and of the pattern class \<open>\s\<close> is the set below, and the class
  \<open>\d\<close> is \<open>0\<close> to \<open>9\<close>.
\<close>

definition is_space :: "char \<Rightarrow> bool" where
  "is_space c \<longleftrightarrow> (of_char c :: nat) \<in> set [9, 10, 11, 12, 13, 28, 29, 30, 31, 32, 133, 160]"

definition is_digit :: "char \<Rightarrow> bool" where
  "is_digit c \<longleftrightarrow> 48 \<le> (of_char c :: nat) \<and> (of_char c :: nat) \<le> 57"

text \<open>\<open>s.strip()\<close>, for a given class of characters to drop at both ends.\<close>

definition strip_with :: "(char \<Rightarrow> bool) \<Rightarrow> string \<Rightarrow> string" where
  "strip_with sp s = rev (dropWhile sp (rev (dropWhile sp s)))"

definition strip :: "string \<Rightarrow> string" where
  "strip s = strip_with is_space s"

text \<open>\<open>re.sub(r"[^\d,.\s]", "", s)\<close>: every character outside the class is deleted.\<close>

definition price_char :: "char \<Rightarrow> bool" where
  "price_char c \<longleftrightarrow> is_digit c \<or> c = CHR '','' \<or> c = CHR ''.'' \<or> is_space c"

definition re_sub_price :: "string \<Rightarrow> string" where
  "re_sub_price s = filter price_char s"

text \<open>\<open>s.replace(old, new)\<close> for a one-character \<open>old\<close>.\<close>

definition replace :: "char \<Rightarrow> string \<Rightarrow> string \<Rightarrow> string" where
  "replace old new s = concat (map (\<lambda>c. if c = old then new else [c]) s)"

text \<open>\<open>s.rfind(c)\<close>: the highest index of \<open>c\<close>, or \<open>-1\<close> when \<open>c\<close> does not occur.\<close>

fun rfind_from :: "int \<Rightarrow> char \<Rightarrow> string \<Rightarrow> int" where
  "rfind_from i c [] = - 1"
| "rfind_from i c (x # xs) =
     (let r = rfind_from (i + 1) c xs in if r = - 1 \<and> x = c then i else r)"

definition rfind :: "char \<Rightarrow> string \<Rightarrow> int" where
  "rfind c s = rfind_from 0 c s"

text \<open>\<open>s.count(c)\<close> and \<open>s.split(c)\<close> for a one-character separator.\<close>

definition count :: "char \<Rightarrow> string \<Rightarrow> nat" where
  "count c s = length (filter (\<lambda>x. x = c) s)"

fun split :: "char \<Rightarrow> string \<Rightarrow> string list" where
  "split c [] = [[]]"
| "split c (x # xs) =
     (if x = c then [] # split c xs
      else (case split c xs of [] \<Rightarrow> [[x]] | p # ps \<Rightarrow> (x # p) # ps))"

text \<open>\<open>"".join(parts[:-1]) + "." + parts[-1]\<close>\<close>

definition join_last :: "string list \<Rightarrow> string" where
  "join_last parts = concat (butlast parts) @ ''.'' @ last parts"

section \<open>Floats\<close>

text \<open>
  A Python \<open>float\<close> is an IEEE binary64 value: a finite number, an infinity or a
  NaN. Finite values are kept as the rational they denote.
\<close>

datatype pyfloat = Finite rat | PosInf | NegInf | NaN

text \<open>\<open>a <= b\<close> on floats: false as soon as one side is a NaN.\<close>

fun py_le :: "pyfloat \<Rightarrow> pyfloat \<Rightarrow> bool" where
  "py_le NaN b = False"
| "py_le a NaN = False"
| "py_le NegInf b = True"
| "py_le a PosInf = True"
| "py_le (Finite x) (Finite y) = (x \<le> y)"
| "py_le (Finite x) NegInf = False"
| "py_le PosInf b = False"

text \<open>
  Conversion of a nonnegative decimal value to binary64, rounded to nearest with ties
  to even, as \<open>float\<close> does on a numeric string: the exponent is that of the
  value, not below the subnormal range; the value is rounded to a multiple of the unit
  in the last of 53 bits; a result of \<open>2 ^ 1024\<close> or more is infinity.
\<close>

definition pow2 :: "int \<Rightarrow> rat" where
  "pow2 e = (if 0 \<le> e then 2 ^ nat e else 1 / 2 ^ nat (- e))"

function bitlen :: "int \<Rightarrow> int" where
  "bitlen a = (if 0 < a then 1 + bitlen (a div 2) else 0)"
  by pat_completeness auto
termination
  by (relation "measure nat") auto

definition ilog2 :: "rat \<Rightarrow> int" where
  "ilog2 q = (let (a, b) = quotient_of q; k = bitlen a - bitlen b
              in if pow2 k \<le> q then k else k - 1)"

definition round_half_even :: "rat \<Rightarrow> int" where
  "round_half_even q =
     (let f = \<lfloor>q\<rfloor>; d = q - of_int f
      in if d < 1 / 2 then f else if 1 / 2 < d then f + 1
         else if even f then f else f + 1)"

definition binary64 :: "rat \<Rightarrow> pyfloat" where
  "binary64 q =
     (if q \<le> 0 then Finite 0
      else let e = max (ilog2 q) (- 1022);
               u = pow2 (e - 52);
               r = of_int (round_half_even (q / u)) * u
           in if pow2 1024 \<le> r then PosInf else Finite r)"

text \<open>
  \<open>float(s)\<close> on the strings \<open>parse_price\<close> hands to it, which hold digits,
  periods and whitespace only (lemma \<open>separators_chars\<close> below): whitespace is
  dropped at both ends (the separators 28 to 31 are not whitespace for \<open>float\<close>),
  and what remains must be digits with at most one period and at least one digit.
  \<open>None\<close> is the \<open>ValueError\<close>.
\<close>

definition float_space :: "char \<Rightarrow> bool" where
  "float_space c \<longleftrightarrow> (of_char c :: nat) \<in> set [9, 10, 11, 12, 13, 32, 133, 160]"

definition digits_value :: "string \<Rightarrow> int" where
  "digits_value ds = foldl (\<lambda>a c. 10 * a + (of_char c - 48)) 0 ds"

definition py_float :: "string \<Rightarrow> pyfloat option" where
  "py_float s =
     (let t = strip_with float_space s;
          ip = takeWhile is_digit t;
          rest = dropWhile is_digit t;
          fp = (case rest of
                  [] \<Rightarrow> Some []
                | c # r \<Rightarrow> if c = CHR ''.'' \<and> list_all is_digit r then Some r else None)
      in case fp of
           None \<Rightarrow> None
         | Some f \<Rightarrow>
             if ip = [] \<and> f = [] then None
             else Some (binary64 (of_int (digits_value (ip @ f)) / 10 ^ length f)))"

section \<open>parse_price\<close>

text \<open>Lines 48 to 51: strip, delete what is not a digit, comma, period or whitespace,
  strip again, delete the spaces.\<close>

definition clean :: "string \<Rightarrow> string" where
  "clean text = replace CHR '' '' [] (strip (re_sub_price (strip text)))"

text \<open>Lines 54 to 77: the choice of the decimal separator.\<close>

definition separators :: "string \<Rightarrow> string" where
  "separators s =
     (if CHR '','' \<in> set s \<and> CHR ''.'' \<in> set s then
        (if rfind CHR '','' s > rfind CHR ''.'' s
         then replace CHR '','' ''.'' (replace CHR ''.'' [] s)
         else replace CHR '','' [] s)
      else
        (let s1 = (if CHR '','' \<in> set s \<and> CHR ''.'' \<notin> set s then
                     (if count CHR '','' s > 1 then join_last (split CHR '','' s)
                      else replace CHR '','' ''.'' s)
                   else s)
         in if CHR ''.'' \<in> set s1 then
              (if count CHR ''.'' s1 > 1 then join_last (split CHR ''.'' s1) else s1)
            else s1))"

definition parse_price :: "string option \<Rightarrow> pyfloat option" where
  "parse_price text =
     (case text of
        None \<Rightarrow> None
      | Some t \<Rightarrow> py_float (separators (clean t)))"

section \<open>fetch_price\<close>

text \<open>
  The page fetch and the selector query are capabilities of the environment:
  \<open>http_get\<close> is \<open>requests.get\<close> followed by \<open>raise_for_status\<close>, giving the
  text of the \<open>RequestException\<close> or the markup; \<open>select_text\<close> is
  \<open>select_one\<close> on the parsed markup, giving \<open>get_text(strip=True)\<close> of the first
  match, or \<open>None\<close> when nothing matches. Both always answer: a selector that the
  query engine rejects raises there and ends the process, and is left out.
\<close>

record web =
  http_get :: "string \<Rightarrow> string + string"
  select_text :: "string \<Rightarrow> string \<Rightarrow> string option"

definition fetch_price :: "web \<Rightarrow> string \<Rightarrow> string \<Rightarrow> pyfloat option \<times> string" where
  "fetch_price w u sel =
     (case http_get w u of
        Inl e \<Rightarrow> (None, ''fetch_error: '' @ e)
      | Inr markup \<Rightarrow>
          (case select_text w markup sel of
             None \<Rightarrow> (None, ''selector_not_found'')
           | Some el_text \<Rightarrow>
               (case parse_price (Some el_text) of
                  None \<Rightarrow> (None, ''parse_failed'')
                | Some price \<Rightarrow> (Some price, ''ok''))))"

section \<open>run_once\<close>

text \<open>
  A product of the configuration: \<open>url\<close> and \<open>selector\<close> are read with
  \<open>p[...]\<close>, \<open>name\<close> and \<open>target_price\<close> with \<open>p.get(...)\<close>. The target is
  kept as the float that \<open>float(target)\<close> yields. An entry without \<open>url\<close> or
  \<open>selector\<close>, or with a target that is not a number, raises and ends the process;
  the type has no such entry.
\<close>

record product =
  name :: "string option"
  url :: string
  selector :: string
  target_price :: "pyfloat option"

text \<open>A row of \<open>price_history\<close>, without the timestamp read from the clock.\<close>

record observation =
  obs_name :: string
  obs_url :: string
  obs_price :: "pyfloat option"
  obs_target :: "pyfloat option"
  obs_selector :: string
  obs_status :: string

text \<open>The lines printed, by their format and arguments.\<close>

datatype out_line =
    ErrorLine string string string
  | InfoLine string "pyfloat option" "pyfloat option" string
  | AlertLine pyfloat pyfloat
  | NoAlertsLine

datatype err_line = ConfigNotFound | NoProducts

text \<open>
  The state a run works on: the rows of the store, the URLs requested so far, the two
  output streams and the local flag \<open>any_alerts\<close>.
\<close>

record run_state =
  db :: "observation list"
  requested :: "string list"
  stdout :: "out_line list"
  stderr :: "err_line list"
  any_alerts :: bool

text \<open>\<open>p.get("name") or p.get("url")\<close>: an absent or empty name gives the URL.\<close>

definition display_name :: "product \<Rightarrow> string" where
  "display_name p = (case name p of None \<Rightarrow> url p | Some n \<Rightarrow> if n = [] then url p else n)"

text \<open>\<open>record(name, url, price, target, selector, status)\<close>: one row appended. The
  store accepts every row.\<close>

definition record_obs :: "observation \<Rightarrow> run_state \<Rightarrow> run_state" where
  "record_obs ob st = st\<lparr>db := db st @ [ob]\<rparr>"

definition print :: "out_line \<Rightarrow> run_state \<Rightarrow> run_state" where
  "print l st = st\<lparr>stdout := stdout st @ [l]\<rparr>"

text \<open>The body of the loop, lines 143 to 157.\<close>

definition check_product :: "web \<Rightarrow> product \<Rightarrow> run_state \<Rightarrow> run_state" where
  "check_product w p st =
     (let nm = display_name p;
          (price, status) = fetch_price w (url p) (selector p);
          st1 = st\<lparr>requested := requested st @ [url p]\<rparr>;
          st2 = record_obs \<lparr>obs_name = nm, obs_url = url p, obs_price = price,
                            obs_target = target_price p, obs_selector = selector p,
                            obs_status = status\<rparr> st1
      in if status \<noteq> ''ok'' then print (ErrorLine nm status (url p)) st2
         else
           (let st3 = print (InfoLine nm price (target_price p) (url p)) st2
            in case target_price p of
                 None \<Rightarrow> st3
               | Some t \<Rightarrow>
                   (case price of
                      None \<Rightarrow> st3
                    | Some pr \<Rightarrow>
                        if py_le pr t then print (AlertLine pr t) (st3\<lparr>any_alerts := True\<rparr>)
                        else st3)))"

fun products_loop :: "web \<Rightarrow> product list \<Rightarrow> run_state \<Rightarrow> run_state" where
  "products_loop w [] st = st"
| "products_loop w (p # ps) st = products_loop w ps (check_product w p st)"

text \<open>
  \<open>run_once\<close>. The configuration is \<open>None\<close> when the file does not exist, and
  otherwise holds what \<open>cfg.get("products", [])\<close> finds: \<open>None\<close> for a missing or
  null entry, or the list. The result is the exit status of the process and the final
  state. \<open>ensure_db\<close> creates the table when it is missing and touches no row.
\<close>

definition run_once :: "web \<Rightarrow> product list option option \<Rightarrow> observation list \<Rightarrow> nat \<times> run_state" where
  "run_once w config rows =
     (let st = \<lparr>db = rows, requested = [], stdout = [], stderr = [], any_alerts = False\<rparr>
      in case config of
           None \<Rightarrow> (1, st\<lparr>stderr := stderr st @ [ConfigNotFound]\<rparr>)
         | Some cfg \<Rightarrow>
             (let products = (case cfg of None \<Rightarrow> [] | Some ps \<Rightarrow> ps)
              in if products = [] then (1, st\<lparr>stderr := stderr st @ [NoProducts]\<rparr>)
                 else
                   (let st1 = products_loop w products st
                    in (0, if \<not> any_alerts st1 then print NoAlertsLine st1 else st1))))"

section \<open>Notions used in the statements\<close>

text \<open>A string with every whitespace character deleted.\<close>

definition delete_whitespace :: "string \<Rightarrow> string" where
  "delete_whitespace s = filter (\<lambda>c. \<not> is_space c) s"


text \<open>
  A shop for the examples: one page, whose price element reads \<open>US$ 2.500,00\<close>;
  every other address times out.
\<close>

definition shop :: web where
  "shop =
     \<lparr>http_get = (\<lambda>u. if u = ''http://shop/a'' then Inr ''<b class=p>US$ 2.500,00</b>''
                      else Inl ''timeout''),
      select_text = (\<lambda>markup sel. if sel = ''.p'' then Some ''US$ 2.500,00'' else None)\<rparr>"

definition widget :: "rat \<Rightarrow> product" where
  "widget t = \<lparr>name = Some ''widget'', url = ''http://shop/a'', selector = ''.p'',
               target_price = Some (Finite t)\<rparr>"

definition gadget :: product where
  "gadget = \<lparr>name = None, url = ''http://shop/b'', selector = ''.p'', target_price = None\<rparr>"

section \<open>Evaluation\<close>

declare bitlen.simps [simp del]

lemmas text_eval = clean_def strip_def strip_with_def re_sub_price_def price_char_def
  replace_def is_digit_def is_space_def separators_def rfind_def count_def join_last_def
  py_float_def float_space_def digits_value_def parse_price_def

lemma round_half_even_of_int: "round_half_even (of_int k) = k"
  by (simp add: round_half_even_def)

lemma floor_rat_numeral: "\<lfloor>(numeral a :: rat) / numeral b\<rfloor> = numeral a div numeral b"
  by (metis floor_divide_of_int_eq of_int_numeral)

text \<open>Three values of \<open>binary64\<close>: 12.5 and 2500 are kept, 1234.567 is rounded.\<close>

lemma ilog2_12_5: "ilog2 (25 / 2) = 3"
  by code_simp

lemma binary64_12_5: "binary64 (25 / 2) = Finite (25 / 2)"
proof -
  have "(25 / 2 :: rat) / pow2 (3 - 52) = of_int (25 * 2 ^ 48)"
    by (simp add: pow2_def)
  then show ?thesis
    by (simp add: binary64_def ilog2_12_5 round_half_even_of_int
          del: of_int_mult of_int_power of_int_numeral)
       (simp add: pow2_def)
qed

lemma ilog2_2500: "ilog2 2500 = 11"
  by code_simp

lemma binary64_2500: "binary64 2500 = Finite 2500"
proof -
  have "(2500 :: rat) / pow2 (11 - 52) = of_int (2500 * 2 ^ 41)"
    by (simp add: pow2_def)
  then show ?thesis
    by (simp add: binary64_def ilog2_2500 round_half_even_of_int
          del: of_int_mult of_int_power of_int_numeral)
       (simp add: pow2_def)
qed

lemma ilog2_1234_567: "ilog2 (1234567 / 1000) = 10"
  by code_simp

lemma binary64_1234_567: "binary64 (1234567 / 1000) = Finite (1357420771768533 / 2 ^ 40)"
  by (simp add: binary64_def ilog2_1234_567 Let_def) (simp add: pow2_def round_half_even_def Let_def floor_rat_numeral)

lemma parse_price_2500: "parse_price (Some ''US$ 2.500,00'') = Some (Finite 2500)"
  by (simp add: text_eval binary64_2500)

lemma fetch_price_widget: "fetch_price shop ''http://shop/a'' ''.p'' = (Some (Finite 2500), ''ok'')"
  by (simp add: fetch_price_def shop_def parse_price_2500)

lemma fetch_price_gadget: "fetch_price shop ''http://shop/b'' ''.p'' = (None, ''fetch_error: timeout'')"
  by (simp add: fetch_price_def shop_def)

section \<open>The values of parse_price are not negative\<close>

lemma pow2_pos: "0 < pow2 e"
  by (simp add: pow2_def)

lemma round_half_even_nonneg: "0 \<le> q \<Longrightarrow> 0 \<le> round_half_even q"
  by (auto simp: round_half_even_def Let_def)

lemma binary64_nonneg: "py_le (Finite 0) (binary64 q)"
proof (cases "q \<le> 0")
  case True
  then show ?thesis by (simp add: binary64_def)
next
  case False
  define u where "u = pow2 (max (ilog2 q) (- 1022) - 52)"
  have "0 < u" by (simp add: u_def pow2_pos)
  with False have "0 \<le> q / u" by simp
  then have "0 \<le> round_half_even (q / u)" by (rule round_half_even_nonneg)
  with \<open>0 < u\<close> have "0 \<le> of_int (round_half_even (q / u)) * u" by simp
  with False show ?thesis
    by (simp add: binary64_def Let_def u_def)
qed

lemma py_float_nonneg: "py_float s = Some v \<Longrightarrow> py_le (Finite 0) v"
  by (auto simp: py_float_def Let_def binary64_nonneg split: option.splits if_splits list.splits)

text \<open>
  C10. Whatever the input, a value returned by \<open>parse_price\<close> satisfies
  \<open>0 <= v\<close>: the filter deletes a sign together with the currency symbols, and
  \<open>"-12.50"\<close> is cleaned to \<open>"12.50"\<close> and read as 12.5.
\<close>

theorem parse_price_nonnegative:
  "(parse_price text = Some v \<longrightarrow> py_le (Finite 0) v)
   \<and> clean ''-12.50'' = ''12.50''
   \<and> parse_price (Some ''-12.50'') = Some (Finite (25 / 2))"
proof (intro conjI impI)
  assume "parse_price text = Some v"
  then show "py_le (Finite 0) v"
    by (auto simp: parse_price_def py_float_nonneg split: option.splits)
next
  show "clean ''-12.50'' = ''12.50''"
    by (simp add: text_eval)
next
  show "parse_price (Some ''-12.50'') = Some (Finite (25 / 2))"
    by (simp add: text_eval binary64_12_5)
qed

theorem parse_price_nonnegative_witness:
  "parse_price (Some ''-12.50'') = Some (Finite (25 / 2)) \<and> py_le (Finite 0) (Finite (25 / 2))"
  using parse_price_nonnegative [of "Some ''-12.50''" "Finite (25 / 2)"] by simp

section \<open>The decimal separator\<close>

lemma replace_delete: "replace c [] s = filter (\<lambda>x. x \<noteq> c) s"
  by (induction s) (simp_all add: replace_def)

lemma replace_single: "replace c [d] s = map (\<lambda>x. if x = c then d else x) s"
  by (induction s) (simp_all add: replace_def)

lemma rfind_from_absent: "0 \<le> i \<Longrightarrow> rfind_from i c s = - 1 \<longleftrightarrow> c \<notin> set s"
  by (induction s arbitrary: i) (auto simp: Let_def)

lemma rfind_from_lower: "0 \<le> i \<Longrightarrow> c \<in> set s \<Longrightarrow> i \<le> rfind_from i c s"
proof (induction s arbitrary: i)
  case Nil
  then show ?case by simp
next
  case (Cons x xs)
  show ?case
  proof (cases "c \<in> set xs")
    case True
    with Cons.prems Cons.IH [of "i + 1"] have "i + 1 \<le> rfind_from (i + 1) c xs" by simp
    moreover from True Cons.prems have "rfind_from (i + 1) c xs \<noteq> - 1"
      by (simp add: rfind_from_absent)
    ultimately show ?thesis by (simp add: Let_def)
  next
    case False
    with Cons.prems have "x = c" by simp
    moreover from False Cons.prems have "rfind_from (i + 1) c xs = - 1"
      by (simp add: rfind_from_absent)
    ultimately show ?thesis by (simp add: Let_def)
  qed
qed

lemma last_filter_only:
  assumes "c \<in> set xs" "d \<notin> set xs"
  shows "last (filter (\<lambda>x. x = c \<or> x = d) xs) = c"
proof -
  from assms have ne: "filter (\<lambda>x. x = c \<or> x = d) xs \<noteq> []"
    by (auto simp: filter_empty_conv)
  then have "last (filter (\<lambda>x. x = c \<or> x = d) xs) \<in> set (filter (\<lambda>x. x = c \<or> x = d) xs)"
    by (rule last_in_set)
  with assms show ?thesis by auto
qed

lemma rfind_from_last:
  "0 \<le> i \<Longrightarrow> c \<noteq> d \<Longrightarrow> c \<in> set s \<Longrightarrow> d \<in> set s \<Longrightarrow>
   rfind_from i d s < rfind_from i c s \<longleftrightarrow> last (filter (\<lambda>x. x = c \<or> x = d) s) = c"
proof (induction s arbitrary: i)
  case Nil
  then show ?case by simp
next
  case (Cons x xs)
  let ?sep = "\<lambda>x. x = c \<or> x = d"
  consider (both) "c \<in> set xs" "d \<in> set xs" | (c_only) "c \<in> set xs" "d \<notin> set xs"
    | (d_only) "c \<notin> set xs" "d \<in> set xs" | (none) "c \<notin> set xs" "d \<notin> set xs"
    by blast
  then show ?case
  proof cases
    case both
    with Cons.prems have "rfind_from (i + 1) c xs \<noteq> - 1" "rfind_from (i + 1) d xs \<noteq> - 1"
      by (simp_all add: rfind_from_absent)
    moreover from both have "filter ?sep xs \<noteq> []" by (auto simp: filter_empty_conv)
    ultimately show ?thesis
      using Cons.IH [of "i + 1"] Cons.prems both by (simp add: Let_def)
  next
    case c_only
    with Cons.prems have xd: "x = d" by simp
    from c_only Cons.prems have "rfind_from (i + 1) d xs = - 1" "i + 1 \<le> rfind_from (i + 1) c xs"
      "rfind_from (i + 1) c xs \<noteq> - 1"
      by (simp_all add: rfind_from_absent rfind_from_lower)
    moreover from c_only have "last (filter ?sep xs) = c" "filter ?sep xs \<noteq> []"
      by (auto simp: last_filter_only filter_empty_conv)
    ultimately show ?thesis using xd by (simp add: Let_def)
  next
    case d_only
    with Cons.prems have xc: "x = c" by simp
    from d_only Cons.prems have "rfind_from (i + 1) c xs = - 1" "i + 1 \<le> rfind_from (i + 1) d xs"
      "rfind_from (i + 1) d xs \<noteq> - 1"
      by (simp_all add: rfind_from_absent rfind_from_lower)
    moreover from d_only have "last (filter (\<lambda>x. x = d \<or> x = c) xs) = d" "filter ?sep xs \<noteq> []"
      by (auto simp: last_filter_only filter_empty_conv)
    moreover have "filter (\<lambda>x. x = d \<or> x = c) xs = filter ?sep xs"
      by (rule filter_cong) auto
    ultimately show ?thesis using xc \<open>c \<noteq> d\<close> by (simp add: Let_def)
  next
    case none
    with Cons.prems show ?thesis by auto
  qed
qed

lemma rfind_last:
  "c \<noteq> d \<Longrightarrow> c \<in> set s \<Longrightarrow> d \<in> set s \<Longrightarrow>
   rfind d s < rfind c s \<longleftrightarrow> last (filter (\<lambda>x. x = c \<or> x = d) s) = c"
  unfolding rfind_def by (rule rfind_from_last) simp_all

lemma separators_both:
  assumes "CHR '','' \<in> set s" "CHR ''.'' \<in> set s"
  shows "separators s =
     (if last (filter (\<lambda>x. x = CHR '','' \<or> x = CHR ''.'') s) = CHR '',''
      then map (\<lambda>x. if x = CHR '','' then CHR ''.'' else x) (filter (\<lambda>x. x \<noteq> CHR ''.'') s)
      else filter (\<lambda>x. x \<noteq> CHR '','') s)"
proof -
  have "rfind CHR ''.'' s < rfind CHR '','' s \<longleftrightarrow>
        last (filter (\<lambda>x. x = CHR '','' \<or> x = CHR ''.'') s) = CHR '',''"
    using assms by (intro rfind_last) simp_all
  with assms show ?thesis
    by (simp add: separators_def replace_delete replace_single)
qed

text \<open>
  C3. When the cleaned input holds both a comma and a period, the one that occurs last
  is the decimal point: every occurrence of the other one is deleted, and a decimal
  comma is written as a period, before the conversion. So \<open>"$1,234.56"\<close> and
  \<open>"1.234,56"\<close> both give the float 1234.56.
\<close>

theorem parse_price_both_separators:
  "(CHR '','' \<in> set (clean t) \<and> CHR ''.'' \<in> set (clean t) \<longrightarrow>
      parse_price (Some t) =
        py_float
          (if last (filter (\<lambda>x. x = CHR '','' \<or> x = CHR ''.'') (clean t)) = CHR '',''
           then map (\<lambda>x. if x = CHR '','' then CHR ''.'' else x)
                  (filter (\<lambda>x. x \<noteq> CHR ''.'') (clean t))
           else filter (\<lambda>x. x \<noteq> CHR '','') (clean t)))
   \<and> parse_price (Some ''$1,234.56'') = Some (binary64 (123456 / 100))
   \<and> parse_price (Some ''1.234,56'') = Some (binary64 (123456 / 100))"
proof (intro conjI impI)
  assume "CHR '','' \<in> set (clean t) \<and> CHR ''.'' \<in> set (clean t)"
  then show "parse_price (Some t) =
        py_float
          (if last (filter (\<lambda>x. x = CHR '','' \<or> x = CHR ''.'') (clean t)) = CHR '',''
           then map (\<lambda>x. if x = CHR '','' then CHR ''.'' else x)
                  (filter (\<lambda>x. x \<noteq> CHR ''.'') (clean t))
           else filter (\<lambda>x. x \<noteq> CHR '','') (clean t))"
    by (simp add: parse_price_def separators_both)
next
  show "parse_price (Some ''$1,234.56'') = Some (binary64 (123456 / 100))"
    by (simp add: text_eval)
next
  show "parse_price (Some ''1.234,56'') = Some (binary64 (123456 / 100))"
    by (simp add: text_eval)
qed

theorem parse_price_both_separators_witness:
  "CHR '','' \<in> set (clean ''1.234,56'') \<and> CHR ''.'' \<in> set (clean ''1.234,56'')
   \<and> parse_price (Some ''1.234,56'') = py_float ''1234.56''"
  using parse_price_both_separators [of "''1.234,56''"] by (simp add: text_eval)

section \<open>Periods only\<close>

lemma split_no_sep: "c \<notin> set b \<Longrightarrow> split c b = [b]"
  by (induction b) auto

lemma split_not_Nil: "split c a \<noteq> []"
  by (induction a) (auto split: list.splits)

lemma split_append_sep: "c \<notin> set b \<Longrightarrow> split c (a @ c # b) = split c a @ [b]"
proof (induction a)
  case Nil
  then show ?case by (simp add: split_no_sep)
next
  case (Cons x a)
  then show ?case
    using split_not_Nil [of c a] by (cases "split c a") auto
qed

lemma concat_split: "concat (split c a) = filter (\<lambda>x. x \<noteq> c) a"
  by (induction a) (auto split: list.splits)

lemma join_last_split:
  "c \<notin> set b \<Longrightarrow> join_last (split c (a @ c # b)) = filter (\<lambda>x. x \<noteq> c) a @ ''.'' @ b"
  by (simp add: join_last_def split_append_sep concat_split)

lemma count_two: "c \<in> set a \<Longrightarrow> 1 < count c (a @ c # b)"
proof -
  assume "c \<in> set a"
  then have "filter (\<lambda>x. x = c) a \<noteq> []" by (auto simp: filter_empty_conv)
  then have "0 < length (filter (\<lambda>x. x = c) a)" by simp
  then show ?thesis by (simp add: count_def)
qed

lemma separators_dots:
  assumes "CHR '','' \<notin> set a" "CHR '','' \<notin> set b" "CHR ''.'' \<in> set a" "CHR ''.'' \<notin> set b"
  shows "separators (a @ ''.'' @ b) = filter (\<lambda>x. x \<noteq> CHR ''.'') a @ ''.'' @ b"
  using assms count_two [of "CHR ''.''" a b]
  by (simp add: separators_def join_last_split)

lemma separators_commas:
  assumes "CHR ''.'' \<notin> set a" "CHR ''.'' \<notin> set b" "CHR '','' \<in> set a" "CHR '','' \<notin> set b"
  shows "separators (a @ '','' @ b) = filter (\<lambda>x. x \<noteq> CHR '','') a @ ''.'' @ b"
proof -
  have "count CHR ''.'' (filter (\<lambda>x. x \<noteq> CHR '','') a @ ''.'' @ b) = 1"
    using assms by (auto simp: count_def filter_empty_conv)
  with assms count_two [of "CHR '',''" a b] show ?thesis
    by (simp add: separators_def join_last_split Let_def)
qed

text \<open>
  C4. When the cleaned input holds periods only, and more than one, every period but
  the last is deleted and the last one stays as the decimal point. So
  \<open>"1.234.567"\<close> is read as \<open>"1234.567"\<close> and gives the float 1234.567, not
  1234567.
\<close>

theorem parse_price_only_periods:
  "(clean t = a @ ''.'' @ b \<and> CHR '','' \<notin> set (clean t) \<and> CHR ''.'' \<in> set a \<and> CHR ''.'' \<notin> set b \<longrightarrow>
      parse_price (Some t) = py_float (filter (\<lambda>x. x \<noteq> CHR ''.'') a @ ''.'' @ b))
   \<and> parse_price (Some ''1.234.567'') = Some (binary64 (1234567 / 1000))"
proof (intro conjI impI)
  assume h: "clean t = a @ ''.'' @ b \<and> CHR '','' \<notin> set (clean t) \<and> CHR ''.'' \<in> set a \<and> CHR ''.'' \<notin> set b"
  then have "separators (a @ ''.'' @ b) = filter (\<lambda>x. x \<noteq> CHR ''.'') a @ ''.'' @ b"
    by (intro separators_dots) auto
  with h show "parse_price (Some t) = py_float (filter (\<lambda>x. x \<noteq> CHR ''.'') a @ ''.'' @ b)"
    by (simp add: parse_price_def)
next
  show "parse_price (Some ''1.234.567'') = Some (binary64 (1234567 / 1000))"
    by (simp add: text_eval)
qed

theorem parse_price_only_periods_witness:
  "clean ''1.234.567'' = ''1.234'' @ ''.'' @ ''567''
   \<and> parse_price (Some ''1.234.567'') = py_float ''1234.567''"
  using parse_price_only_periods [of "''1.234.567''" "''1.234''" "''567''"]
  by (simp add: clean_def strip_def strip_with_def re_sub_price_def price_char_def
        replace_def is_digit_def is_space_def)

theorem parse_price_only_periods_counterexample:
  "parse_price (Some ''1.234.567'') = Some (Finite (1357420771768533 / 2 ^ 40))
   \<and> parse_price (Some ''1.234.567'') \<noteq> Some (Finite 1234567)"
  by (simp add: text_eval binary64_1234_567)

section \<open>What reaches the conversion\<close>

lemma filter_dropWhile_neg:
  "(\<And>c. Q c \<Longrightarrow> \<not> P c) \<Longrightarrow> filter Q (dropWhile P xs) = filter Q xs"
  by (induction xs) auto

lemma filter_strip_with:
  assumes "\<And>c. Q c \<Longrightarrow> \<not> P c"
  shows "filter Q (strip_with P xs) = filter Q xs"
proof -
  have "filter Q (strip_with P xs) = rev (filter Q (dropWhile P (rev (dropWhile P xs))))"
    by (simp add: strip_with_def rev_filter)
  also have "\<dots> = rev (filter Q (rev (dropWhile P xs)))"
    using assms by (simp add: filter_dropWhile_neg)
  also have "\<dots> = filter Q (dropWhile P xs)"
    by (simp add: rev_filter)
  also have "\<dots> = filter Q xs"
    using assms by (rule filter_dropWhile_neg)
  finally show ?thesis .
qed

lemma dropWhile_none: "\<forall>c\<in>set xs. \<not> P c \<Longrightarrow> dropWhile P xs = xs"
  by (cases xs) simp_all

lemma strip_with_none: "\<forall>c\<in>set xs. \<not> P c \<Longrightarrow> strip_with P xs = xs"
  by (simp add: strip_with_def dropWhile_none)

lemma set_strip_with: "set (strip_with P xs) \<subseteq> set xs"
proof -
  have "set (dropWhile P (rev (dropWhile P xs))) \<subseteq> set (rev (dropWhile P xs))"
    by (rule set_dropWhileD [THEN subsetI]) 
  also have "\<dots> \<subseteq> set xs"
    using set_dropWhileD [of _ P xs] by auto
  finally show ?thesis by (simp add: strip_with_def)
qed

lemma set_join_last_split: "set (join_last (split c s)) = (set s - {c}) \<union> {CHR ''.''}"
proof -
  have "concat (butlast (split c s)) @ last (split c s) = concat (split c s)"
    using split_not_Nil [of c s] by (metis append_butlast_last_id concat.simps concat_append append_Nil2)
  then have "set (concat (butlast (split c s))) \<union> set (last (split c s)) = set s - {c}"
    by (metis set_append concat_split set_minus_filter_out)
  then show ?thesis
    unfolding join_last_def by (simp del: set_concat)
qed

lemma set_replace_char: "set (replace c [d] s) \<subseteq> (set s - {c}) \<union> {d}"
  by (auto simp: replace_single)

lemma set_separators: "set (separators s) \<subseteq> (set s - {CHR '',''}) \<union> {CHR ''.''}"
proof (cases "CHR '','' \<in> set s")
  case False
  then show ?thesis
    by (auto simp: separators_def Let_def set_join_last_split)
next
  case comma: True
  show ?thesis
  proof (cases "CHR ''.'' \<in> set s")
    case True
    with comma show ?thesis
      by (auto simp: separators_def replace_delete replace_single)
  next
    case False
    let ?s1 = "if count CHR '','' s > 1 then join_last (split CHR '','' s) else replace CHR '','' ''.'' s"
    have s1: "set ?s1 \<subseteq> (set s - {CHR '',''}) \<union> {CHR ''.''}"
      using set_replace_char [of "CHR '',''" "CHR ''.''" s]
      by (simp add: set_join_last_split)
    have "set (separators s) \<subseteq> set ?s1 \<union> {CHR ''.''}"
      using comma False by (auto simp: separators_def Let_def set_join_last_split)
    with s1 show ?thesis by blast
  qed
qed

lemma set_clean: "set (clean t) \<subseteq> {c. price_char c}"
proof -
  have "set (clean t) \<subseteq> set (strip (re_sub_price (strip t)))"
    by (auto simp: clean_def replace_delete)
  also have "\<dots> \<subseteq> set (re_sub_price (strip t))"
    unfolding strip_def by (rule set_strip_with)
  also have "\<dots> \<subseteq> {c. price_char c}"
    by (auto simp: re_sub_price_def)
  finally show ?thesis .
qed

lemma separators_chars:
  "c \<in> set (separators (clean t)) \<Longrightarrow> is_digit c \<or> c = CHR ''.'' \<or> is_space c"
  using set_separators [of "clean t"] set_clean [of t]
  by (auto simp: price_char_def)

section \<open>Whitespace\<close>




lemma space_is_space: "is_space (CHR '' '')" "\<not> is_space (CHR ''.'')" "\<not> is_space (CHR '','')"
  "\<not> float_space (CHR ''.'')"
  by (simp_all add: is_space_def float_space_def)

lemma filter_dropWhile_filter:
  "(\<And>c. \<not> R c \<Longrightarrow> P c) \<Longrightarrow> filter R (dropWhile P (filter R ys)) = filter R (dropWhile P ys)"
  by (induction ys) auto

lemma filter_strip_with_filter:
  assumes "\<And>c. \<not> R c \<Longrightarrow> P c"
  shows "filter R (strip_with P (filter R ys)) = filter R (strip_with P ys)"
proof -
  have inner: "filter R (rev (dropWhile P (filter R ys))) = filter R (rev (dropWhile P ys))"
    using filter_dropWhile_filter [of R P ys] assms by (simp add: rev_filter [symmetric])
  have "filter R (dropWhile P (rev (dropWhile P (filter R ys)))) =
        filter R (dropWhile P (filter R (rev (dropWhile P (filter R ys)))))"
    using filter_dropWhile_filter [of R P] assms by simp
  also have "\<dots> = filter R (dropWhile P (filter R (rev (dropWhile P ys))))"
    by (simp only: inner)
  also have "\<dots> = filter R (dropWhile P (rev (dropWhile P ys)))"
    using filter_dropWhile_filter [of R P] assms by simp
  finally show ?thesis
    by (simp add: strip_with_def rev_filter [symmetric])
qed

text \<open>The cleaned text without its whitespace is the input without everything but digits,
  commas and periods.\<close>

lemma delete_whitespace_clean:
  "delete_whitespace (clean s) = filter (\<lambda>c. price_char c \<and> \<not> is_space c) s"
proof -
  let ?Q = "\<lambda>c. price_char c \<and> \<not> is_space c"
  have "delete_whitespace (clean s) = filter (\<lambda>c. \<not> is_space c) (strip (re_sub_price (strip s)))"
    by (auto simp: delete_whitespace_def clean_def replace_delete space_is_space intro!: filter_cong)
  also have "\<dots> = filter (\<lambda>c. \<not> is_space c) (re_sub_price (strip s))"
    unfolding strip_def by (rule filter_strip_with) simp
  also have "\<dots> = filter ?Q (strip s)"
    by (simp add: re_sub_price_def conj_commute)
  also have "\<dots> = filter ?Q s"
    unfolding strip_def by (rule filter_strip_with) simp
  finally show ?thesis .
qed

lemma clean_delete_whitespace:
  "clean (delete_whitespace s) = filter (\<lambda>c. price_char c \<and> \<not> is_space c) s"
proof -
  have 1: "strip (delete_whitespace s) = delete_whitespace s"
    by (simp add: strip_def delete_whitespace_def strip_with_none)
  have 2: "strip (re_sub_price (delete_whitespace s)) = re_sub_price (delete_whitespace s)"
    by (simp add: strip_def delete_whitespace_def re_sub_price_def strip_with_none)
  have "clean (delete_whitespace s) =
        filter (\<lambda>x. x \<noteq> CHR '' '') (filter price_char (filter (\<lambda>c. \<not> is_space c) s))"
    by (simp add: clean_def 1 2 replace_delete) (simp add: re_sub_price_def delete_whitespace_def)
  also have "\<dots> = filter (\<lambda>c. price_char c \<and> \<not> is_space c) s"
    by (auto intro!: filter_cong simp: space_is_space)
  finally show ?thesis .
qed

lemma clean_no_whitespace:
  assumes "\<forall>c\<in>set (clean s). \<not> is_space c"
  shows "clean (delete_whitespace s) = clean s"
proof -
  from assms have "delete_whitespace (clean s) = clean s"
    by (simp add: delete_whitespace_def)
  then show ?thesis
    by (simp add: clean_delete_whitespace delete_whitespace_clean [symmetric])
qed

lemma clean_only_spaces:
  assumes "\<forall>c\<in>set (strip s). is_space c \<longrightarrow> c = CHR '' ''"
  shows "\<forall>c\<in>set (clean s). \<not> is_space c"
proof
  fix c assume c: "c \<in> set (clean s)"
  then have "c \<noteq> CHR '' ''" and "c \<in> set (strip (re_sub_price (strip s)))"
    by (simp_all add: clean_def replace_delete)
  then have "c \<in> set (strip s)"
    using set_strip_with [of is_space "re_sub_price (strip s)"]
    by (auto simp: strip_def re_sub_price_def)
  with assms \<open>c \<noteq> CHR '' ''\<close> show "\<not> is_space c" by blast
qed

lemma clean_delete_spaces: "clean (replace CHR '' '' [] s) = clean s"
proof -
  let ?R = "\<lambda>x. x \<noteq> CHR '' ''"
  have R: "\<And>c. \<not> ?R c \<Longrightarrow> is_space c" by (simp add: space_is_space)
  have fs: "\<And>ys. filter ?R (strip (filter ?R ys)) = filter ?R (strip ys)"
    unfolding strip_def by (rule filter_strip_with_filter) (simp add: space_is_space)
  have comm: "\<And>ys. filter price_char (filter ?R ys) = filter ?R (filter price_char ys)"
    by (simp add: conj_commute)
  have "clean (filter ?R s) = filter ?R (strip (filter price_char (strip (filter ?R s))))"
    by (simp add: clean_def replace_delete re_sub_price_def)
  also have "\<dots> = filter ?R (strip (filter ?R (filter price_char (strip (filter ?R s)))))"
    by (simp only: fs)
  also have "\<dots> = filter ?R (strip (filter price_char (filter ?R (strip (filter ?R s)))))"
    by (simp only: comm)
  also have "\<dots> = filter ?R (strip (filter price_char (filter ?R (strip s))))"
    by (simp only: fs)
  also have "\<dots> = filter ?R (strip (filter ?R (filter price_char (strip s))))"
    by (simp only: comm)
  also have "\<dots> = filter ?R (strip (filter price_char (strip s)))"
    by (simp only: fs)
  finally show ?thesis
    by (simp add: clean_def replace_delete re_sub_price_def)
qed

text \<open>
  C7. Deleting every whitespace character of the input does not change the result
  when the cleaned text holds no whitespace, which is the case when the only
  whitespace inside the stripped input is the space character; and deleting every
  space character of the input never changes the result. Other whitespace inside the
  text is kept by the cleaning step: with a tab or a no-break space between the
  digits the conversion fails, and without it it succeeds.
\<close>

theorem parse_price_whitespace:
  "((\<forall>c\<in>set (clean s). \<not> is_space c) \<longrightarrow>
      parse_price (Some (delete_whitespace s)) = parse_price (Some s))
   \<and> ((\<forall>c\<in>set (strip s). is_space c \<longrightarrow> c = CHR '' '') \<longrightarrow>
      parse_price (Some (delete_whitespace s)) = parse_price (Some s))
   \<and> parse_price (Some (replace CHR '' '' [] s)) = parse_price (Some s)"
  using clean_only_spaces [of s]
  by (simp add: parse_price_def clean_no_whitespace clean_delete_spaces)

theorem parse_price_whitespace_witness:
  "delete_whitespace ''US$ 2.500,00'' = ''US$2.500,00''
   \<and> parse_price (Some ''US$2.500,00'') = parse_price (Some ''US$ 2.500,00'')"
proof -
  have h: "\<forall>c\<in>set (strip ''US$ 2.500,00''). is_space c \<longrightarrow> c = CHR '' ''"
    by (simp add: strip_def strip_with_def is_space_def)
  have d: "delete_whitespace ''US$ 2.500,00'' = ''US$2.500,00''"
    by (simp add: delete_whitespace_def is_space_def)
  from parse_price_whitespace [of "''US$ 2.500,00''"] h d show ?thesis by simp
qed

theorem parse_price_whitespace_counterexample:
  "parse_price (Some [CHR ''1'', CHR 0x09, CHR ''2'']) = None
   \<and> parse_price (Some (delete_whitespace [CHR ''1'', CHR 0x09, CHR ''2''])) = Some (binary64 12)
   \<and> parse_price (Some [CHR ''1'', CHR 0xA0, CHR ''2'', CHR ''3'', CHR ''4'', CHR '','', CHR ''5'', CHR ''6'']) = None
   \<and> parse_price (Some (delete_whitespace [CHR ''1'', CHR 0xA0, CHR ''2'', CHR ''3'', CHR ''4'', CHR '','', CHR ''5'', CHR ''6'']))
       = Some (binary64 (123456 / 100))"
  by (simp add: text_eval delete_whitespace_def)

section \<open>Plain decimal renderings\<close>







section \<open>The run\<close>

lemma fetch_price_cases:
  "(fst (fetch_price w u sel) = None \<and> snd (fetch_price w u sel) \<noteq> ''ok'')
   \<or> (\<exists>pr. fetch_price w u sel = (Some pr, ''ok''))"
  by (simp add: fetch_price_def split: sum.splits option.splits)

lemma check_product_db:
  "db (check_product w p st) =
     db st @ [\<lparr>obs_name = display_name p, obs_url = url p,
               obs_price = fst (fetch_price w (url p) (selector p)),
               obs_target = target_price p, obs_selector = selector p,
               obs_status = snd (fetch_price w (url p) (selector p))\<rparr>]"
  by (simp add: check_product_def record_obs_def print_def Let_def
        split: prod.splits option.splits)

lemma check_product_requested:
  "requested (check_product w p st) = requested st @ [url p]"
  by (simp add: check_product_def record_obs_def print_def Let_def
        split: prod.splits option.splits)

lemma check_product_any_alerts:
  "any_alerts (check_product w p st) \<longleftrightarrow>
     any_alerts st \<or>
     (\<exists>pr t. fetch_price w (url p) (selector p) = (Some pr, ''ok'') \<and>
             target_price p = Some t \<and> py_le pr t)"
  using fetch_price_cases [of w "url p" "selector p"]
  by (auto simp: check_product_def record_obs_def print_def Let_def
        split: prod.splits option.splits)

lemma check_product_stdout:
  "\<exists>ls. stdout (check_product w p st) = stdout st @ ls \<and> NoAlertsLine \<notin> set ls"
  by (simp add: check_product_def record_obs_def print_def Let_def
        split: prod.splits option.splits)

lemma check_product_stderr: "stderr (check_product w p st) = stderr st"
  by (simp add: check_product_def record_obs_def print_def Let_def
        split: prod.splits option.splits)

lemma products_loop_db:
  "db (products_loop w ps st) =
     db st @ map (\<lambda>p. \<lparr>obs_name = display_name p, obs_url = url p,
               obs_price = fst (fetch_price w (url p) (selector p)),
               obs_target = target_price p, obs_selector = selector p,
               obs_status = snd (fetch_price w (url p) (selector p))\<rparr>) ps"
  by (induction ps arbitrary: st) (simp_all add: check_product_db)

lemma products_loop_requested:
  "requested (products_loop w ps st) = requested st @ map url ps"
  by (induction ps arbitrary: st) (simp_all add: check_product_requested)

lemma products_loop_any_alerts:
  "any_alerts (products_loop w ps st) \<longleftrightarrow>
     any_alerts st \<or>
     (\<exists>p\<in>set ps. \<exists>pr t. fetch_price w (url p) (selector p) = (Some pr, ''ok'') \<and>
             target_price p = Some t \<and> py_le pr t)"
proof (induction ps arbitrary: st)
  case Nil
  then show ?case by simp
next
  case (Cons p ps)
  show ?case
    unfolding products_loop.simps Cons.IH check_product_any_alerts by auto
qed

lemma products_loop_stdout:
  "\<exists>ls. stdout (products_loop w ps st) = stdout st @ ls \<and> NoAlertsLine \<notin> set ls"
proof (induction ps arbitrary: st)
  case Nil
  then show ?case by simp
next
  case (Cons p ps)
  obtain l1 where l1: "stdout (check_product w p st) = stdout st @ l1" "NoAlertsLine \<notin> set l1"
    using check_product_stdout by blast
  obtain l2 where l2: "stdout (products_loop w ps (check_product w p st)) =
      stdout (check_product w p st) @ l2" "NoAlertsLine \<notin> set l2"
    using Cons.IH by blast
  from l1 l2 have "stdout (products_loop w (p # ps) st) = stdout st @ (l1 @ l2)"
    "NoAlertsLine \<notin> set (l1 @ l2)" by simp_all
  then show ?case by blast
qed

lemma products_loop_stderr: "stderr (products_loop w ps st) = stderr st"
  by (induction ps arbitrary: st) (simp_all add: check_product_stderr)

lemmas run_eval = run_once_def check_product_def record_obs_def print_def display_name_def
  widget_def gadget_def fetch_price_widget fetch_price_gadget Let_def

text \<open>
  C1. The pair returned by \<open>fetch_price\<close> holds a price exactly when its status is
  \<open>ok\<close>; hence, if that holds of the rows already stored, it holds of every row of
  the store after a run.
\<close>

theorem price_present_iff_ok:
  "(fst (fetch_price w u sel) \<noteq> None \<longleftrightarrow> snd (fetch_price w u sel) = ''ok'')
   \<and> ((\<forall>ob\<in>set rows. (obs_price ob \<noteq> None) = (obs_status ob = ''ok'')) \<longrightarrow>
        (\<forall>ob\<in>set (db (snd (run_once w cfg rows))).
           (obs_price ob \<noteq> None) = (obs_status ob = ''ok'')))"
proof (intro conjI impI)
  show pair: "fst (fetch_price w u sel) \<noteq> None \<longleftrightarrow> snd (fetch_price w u sel) = ''ok''" for u sel
    using fetch_price_cases [of w u sel] by auto
  assume rows: "\<forall>ob\<in>set rows. (obs_price ob \<noteq> None) = (obs_status ob = ''ok'')"
  have "db (snd (run_once w cfg rows)) = rows \<or>
        (\<exists>ps. db (snd (run_once w cfg rows)) =
           rows @ map (\<lambda>p. \<lparr>obs_name = display_name p, obs_url = url p,
               obs_price = fst (fetch_price w (url p) (selector p)),
               obs_target = target_price p, obs_selector = selector p,
               obs_status = snd (fetch_price w (url p) (selector p))\<rparr>) ps)"
    by (auto simp: run_once_def Let_def print_def products_loop_db split: option.splits)
  then have mem: "ob \<in> set rows \<or>
        (\<exists>p. ob = \<lparr>obs_name = display_name p, obs_url = url p,
               obs_price = fst (fetch_price w (url p) (selector p)),
               obs_target = target_price p, obs_selector = selector p,
               obs_status = snd (fetch_price w (url p) (selector p))\<rparr>)"
    if "ob \<in> set (db (snd (run_once w cfg rows)))" for ob
    using that by auto
  show "\<forall>ob\<in>set (db (snd (run_once w cfg rows))).
           (obs_price ob \<noteq> None) = (obs_status ob = ''ok'')"
  proof
    fix ob
    assume "ob \<in> set (db (snd (run_once w cfg rows)))"
    from mem [OF this] show "(obs_price ob \<noteq> None) = (obs_status ob = ''ok'')"
    proof
      assume "ob \<in> set rows"
      with rows show ?thesis by blast
    next
      assume "\<exists>p. ob = \<lparr>obs_name = display_name p, obs_url = url p,
               obs_price = fst (fetch_price w (url p) (selector p)),
               obs_target = target_price p, obs_selector = selector p,
               obs_status = snd (fetch_price w (url p) (selector p))\<rparr>"
      then obtain p where ob: "ob = \<lparr>obs_name = display_name p, obs_url = url p,
               obs_price = fst (fetch_price w (url p) (selector p)),
               obs_target = target_price p, obs_selector = selector p,
               obs_status = snd (fetch_price w (url p) (selector p))\<rparr>" by blast
      show ?thesis using pair [of "url p" "selector p"] by (simp add: ob)
    qed
  qed
qed

theorem price_present_iff_ok_witness:
  "fetch_price shop ''http://shop/a'' ''.p'' = (Some (Finite 2500), ''ok'')
   \<and> fetch_price shop ''http://shop/b'' ''.p'' = (None, ''fetch_error: timeout'')
   \<and> map (\<lambda>ob. (obs_price ob, obs_status ob))
        (db (snd (run_once shop (Some (Some [widget 2000, gadget])) []))) =
      [(Some (Finite 2500), ''ok''), (None, ''fetch_error: timeout'')]"
  using price_present_iff_ok [of shop "''http://shop/a''" "''.p''" "[]" "Some (Some [widget 2000, gadget])"]
  by (simp add: run_eval)

text \<open>
  C2. After a run over the products \<open>ps\<close>, the flag \<open>any_alerts\<close> is set exactly
  when for some product the check ends with status \<open>ok\<close>, a target is configured and
  the price is at most the target. The flag is never reset by a later product.
\<close>

theorem run_once_any_alerts:
  "(any_alerts (snd (run_once w (Some (Some ps)) rows)) \<longleftrightarrow>
      (\<exists>p\<in>set ps. \<exists>pr t. fetch_price w (url p) (selector p) = (Some pr, ''ok'') \<and>
         target_price p = Some t \<and> py_le pr t))
   \<and> (any_alerts st \<longrightarrow> any_alerts (check_product w p st))"
  by (auto simp: run_once_def Let_def print_def products_loop_any_alerts check_product_any_alerts)

theorem run_once_any_alerts_witness:
  "any_alerts (snd (run_once shop (Some (Some [gadget, widget 3000])) []))
   \<and> \<not> any_alerts (snd (run_once shop (Some (Some [gadget, widget 2000])) []))"
  using run_once_any_alerts [of shop "[gadget, widget 3000]" "[]"]
    run_once_any_alerts [of shop "[gadget, widget 2000]" "[]"]
  by (simp add: widget_def gadget_def fetch_price_widget fetch_price_gadget)



text \<open>
  C6. Without a configuration file, without a product list or with an empty one, the
  run ends with exit status 1 and a message on the error stream; nothing is requested,
  no row is stored and nothing is printed.
\<close>

theorem run_once_no_products:
  "cfg \<in> {None, Some None, Some (Some [])} \<Longrightarrow>
     fst (run_once w cfg rows) = 1
     \<and> stderr (snd (run_once w cfg rows)) = [if cfg = None then ConfigNotFound else NoProducts]
     \<and> requested (snd (run_once w cfg rows)) = []
     \<and> db (snd (run_once w cfg rows)) = rows
     \<and> stdout (snd (run_once w cfg rows)) = []"
  by (auto simp: run_once_def)

theorem run_once_no_products_witness:
  "fst (run_once shop (Some (Some [])) []) = 1
   \<and> stderr (snd (run_once shop (Some (Some [])) [])) = [NoProducts]
   \<and> requested (snd (run_once shop (Some (Some [])) [])) = []
   \<and> db (snd (run_once shop (Some (Some [])) [])) = []
   \<and> fst (run_once shop None []) = 1
   \<and> stderr (snd (run_once shop None [])) = [ConfigNotFound]"
  using run_once_no_products [of "Some (Some [])" shop "[]"] run_once_no_products [of None shop "[]"]
  by simp

text \<open>
  C9. A run over a non-empty product list ends with exit status 0. Its output is the
  lines of the products, followed by the line \<open>No alerts this run.\<close> exactly when
  no alert fired; when an alert fired nothing follows the lines of the products.
\<close>

theorem run_once_final_line:
  "ps \<noteq> [] \<Longrightarrow>
     fst (run_once w (Some (Some ps)) rows) = 0
     \<and> (\<exists>ls. NoAlertsLine \<notin> set ls
           \<and> stdout (snd (run_once w (Some (Some ps)) rows)) =
               ls @ (if any_alerts (snd (run_once w (Some (Some ps)) rows)) then []
                     else [NoAlertsLine]))"
proof -
  assume ps: "ps \<noteq> []"
  let ?st = "\<lparr>db = rows, requested = [], stdout = [], stderr = [], any_alerts = False\<rparr>"
  obtain ls where ls: "stdout (products_loop w ps ?st) = stdout ?st @ ls" "NoAlertsLine \<notin> set ls"
    using products_loop_stdout by blast
  with ps show ?thesis
    by (auto simp: run_once_def Let_def print_def)
qed

theorem run_once_final_line_witness:
  "fst (run_once shop (Some (Some [widget 2000])) []) = 0
   \<and> stdout (snd (run_once shop (Some (Some [widget 2000])) [])) =
       [InfoLine ''widget'' (Some (Finite 2500)) (Some (Finite 2000)) ''http://shop/a'', NoAlertsLine]"
  using run_once_final_line [of "[widget 2000]" shop "[]"]
  by (simp add: run_eval)

theorem run_once_final_line_counterexample:
  "fst (run_once shop (Some (Some [widget 3000, gadget])) []) = 0
   \<and> stdout (snd (run_once shop (Some (Some [widget 3000, gadget])) [])) =
       [InfoLine ''widget'' (Some (Finite 2500)) (Some (Finite 3000)) ''http://shop/a'',
        AlertLine (Finite 2500) (Finite 3000),
        ErrorLine ''http://shop/b'' ''fetch_error: timeout'' ''http://shop/b'']"
  by (simp add: run_eval)

end
